theory Spec2Isabelle
  imports Complex_Main "HOL-Library.Finite_Map" "HOL-Library.Char_ord" "HOL-Library.List_Lexorder"
begin

section \<open>Python values\<close>

text \<open>
  The validator of \<^verbatim>\<open>src/security/validator.py\<close> receives untyped Python objects. They are
  modelled by the values JSON can carry (\<^verbatim>\<open>None\<close>, booleans, integers, strings, lists and
  string-keyed dictionaries) together with arbitrary other objects. A dictionary is the
  association list of its items in insertion order; an object is given by the text that
  \<^verbatim>\<open>str()\<close> and \<^verbatim>\<open>repr()\<close> print for it and by its attributes. A \<^typ>\<open>char\<close> stands for a code point
  below 256. Floating-point values are left out.
\<close>

datatype pyval =
    PNone
  | PBool bool
  | PInt int
  | PStr string
  | PList "pyval list"
  | PDict "(string \<times> pyval) list"
  | PObj string "(string \<times> pyval) list"

datatype py_error = TypeError | AttributeError

text \<open>Truth value of an object, as \<^verbatim>\<open>if obj\<close> and \<^verbatim>\<open>or\<close> test it.\<close>

fun truthy :: "pyval \<Rightarrow> bool" where
  "truthy PNone = False"
| "truthy (PBool b) = b"
| "truthy (PInt i) = (i \<noteq> 0)"
| "truthy (PStr s) = (s \<noteq> [])"
| "truthy (PList xs) = (xs \<noteq> [])"
| "truthy (PDict kvs) = (kvs \<noteq> [])"
| "truthy (PObj r attrs) = True"

text \<open>\<^verbatim>\<open>d.get(key, default)\<close> on a dictionary's items.\<close>

definition dict_get :: "(string \<times> pyval) list \<Rightarrow> string \<Rightarrow> pyval \<Rightarrow> pyval" where
  "dict_get kvs k d = (case map_of kvs k of None \<Rightarrow> d | Some v \<Rightarrow> v)"

text \<open>
  \<^verbatim>\<open>obj.get(key, default)\<close> on any object: only a dictionary has the method; on every
  other value the attribute lookup (or the call of a non-callable attribute) raises.
\<close>

fun py_get :: "pyval \<Rightarrow> string \<Rightarrow> pyval \<Rightarrow> py_error + pyval" where
  "py_get (PDict kvs) k d = Inr (dict_get kvs k d)"
| "py_get (PObj r attrs) k d = (if ''get'' \<in> fst ` set attrs then Inl TypeError else Inl AttributeError)"
| "py_get v k d = Inl AttributeError"

section \<open>The policy\<close>

text \<open>
  \<^verbatim>\<open>tool_policy.json\<close> is not part of the sources; the loaded policy is a parameter of every
  operation. Its shape is the one the code reads: \<^verbatim>\<open>roles\<close> maps a role name to a
  configuration with an optional \<^verbatim>\<open>allowed_tools\<close> list of strings, and the three top-level
  keys are optional.
\<close>

record role_cfg =
  allowed_tools :: "string list option"

record policy =
  roles :: "(string \<rightharpoonup> role_cfg) option"
  default_role :: "string option"
  duplicate_window_seconds :: "real option"


section \<open>Role resolution\<close>

text \<open>
  The body of the \<^verbatim>\<open>try\<close> block of \<^verbatim>\<open>get_role_from_config\<close>: \<open>Inr (Some role)\<close> is the
  \<^verbatim>\<open>return role\<close>, \<open>Inr None\<close> is falling out of the block, \<open>Inl e\<close> an exception.
\<close>

definition role_lookup :: "pyval \<Rightarrow> py_error + pyval option" where
  "role_lookup config =
     (case (if truthy config then py_get config ''configurable'' (PDict []) else Inr (PDict [])) of
        Inl e \<Rightarrow> Inl e
      | Inr cfg \<Rightarrow>
          (case py_get cfg ''role'' PNone of
             Inl e \<Rightarrow> Inl e
           | Inr r1 \<Rightarrow>
               (if truthy r1 then Inr (Some r1)
                else (case py_get config ''metadata'' (PDict []) of
                        Inl e \<Rightarrow> Inl e
                      | Inr md \<Rightarrow>
                          (case py_get md ''role'' PNone of
                             Inl e \<Rightarrow> Inl e
                           | Inr r2 \<Rightarrow> if truthy r2 then Inr (Some r2) else Inr None)))))"

definition policy_default_role :: "policy \<Rightarrow> pyval" where
  "policy_default_role pol = PStr (case default_role pol of None \<Rightarrow> ''researcher'' | Some r \<Rightarrow> r)"

definition get_role_from_config :: "policy \<Rightarrow> pyval \<Rightarrow> pyval" where
  "get_role_from_config pol config =
     (case role_lookup config of
        Inr (Some role) \<Rightarrow> role
      | _ \<Rightarrow> policy_default_role pol)"

section \<open>Permission check\<close>

text \<open>Lists and dictionaries cannot be dictionary keys: looking one up raises.\<close>

fun hashable :: "pyval \<Rightarrow> bool" where
  "hashable (PList xs) = False"
| "hashable (PDict kvs) = False"
| "hashable v = True"

definition policy_roles :: "policy \<Rightarrow> (string \<rightharpoonup> role_cfg)" where
  "policy_roles pol = (case roles pol of None \<Rightarrow> Map.empty | Some rs \<Rightarrow> rs)"

text \<open>\<^verbatim>\<open>roles.get(role, {}).get("allowed_tools", [])\<close> for a hashable role.\<close>

definition allowed_for :: "policy \<Rightarrow> pyval \<Rightarrow> string list" where
  "allowed_for pol role =
     (case role of
        PStr r \<Rightarrow>
          (case policy_roles pol r of
             None \<Rightarrow> []
           | Some cfg \<Rightarrow> (case allowed_tools cfg of None \<Rightarrow> [] | Some ts \<Rightarrow> ts))
      | _ \<Rightarrow> [])"

definition is_tool_allowed_for_role :: "policy \<Rightarrow> pyval \<Rightarrow> pyval \<Rightarrow> py_error + bool" where
  "is_tool_allowed_for_role pol role tool_name =
     (if \<not> hashable role then Inl TypeError
      else let allowed = allowed_for pol role in
        if allowed = [] then Inr False
        else if ''*'' \<in> set allowed then Inr True
        else Inr (tool_name \<in> PStr ` set allowed))"

section \<open>Strings\<close>

definition hex_digit :: "nat \<Rightarrow> char" where
  "hex_digit n = (if n < 10 then char_of (48 + n) else char_of (87 + n))"

definition hex2 :: "char \<Rightarrow> string" where
  "hex2 c = (let n = (of_char c :: nat) in [hex_digit (n div 16), hex_digit (n mod 16)])"

fun str_of_nat :: "nat \<Rightarrow> string" where
  "str_of_nat n = (if n < 10 then [char_of (48 + n)] else str_of_nat (n div 10) @ [char_of (48 + n mod 10)])"

declare str_of_nat.simps [simp del]

definition str_of_int :: "int \<Rightarrow> string" where
  "str_of_int i = (if i < 0 then CHR ''-'' # str_of_nat (nat (- i)) else str_of_nat (nat i))"

text \<open>\<^verbatim>\<open>sep.join(parts)\<close>.\<close>

fun py_join :: "string \<Rightarrow> string list \<Rightarrow> string" where
  "py_join sep [] = []"
| "py_join sep [x] = x"
| "py_join sep (x # y # ys) = x @ sep @ py_join sep (y # ys)"

text \<open>The white space \<^verbatim>\<open>str.split()\<close> splits at, among the code points below 256.\<close>

definition py_isspace :: "char \<Rightarrow> bool" where
  "py_isspace c =
     (let n = (of_char c :: nat) in (9 \<le> n \<and> n \<le> 13) \<or> (28 \<le> n \<and> n \<le> 32) \<or> n = 133 \<or> n = 160)"

text \<open>\<^verbatim>\<open>text.split()\<close>: the maximal runs of characters that are not white space.\<close>

fun split_from :: "string \<Rightarrow> string \<Rightarrow> string list" where
  "split_from cur [] = (if cur = [] then [] else [cur])"
| "split_from cur (c # cs) =
     (if py_isspace c then (if cur = [] then split_from [] cs else cur # split_from [] cs)
      else split_from (cur @ [c]) cs)"

definition py_split :: "string \<Rightarrow> string list" where
  "py_split s = split_from [] s"

text \<open>\<^verbatim>\<open>str.lower()\<close> on code points below 256.\<close>

definition lower_char :: "char \<Rightarrow> char" where
  "lower_char c =
     (let n = (of_char c :: nat) in
      if (65 \<le> n \<and> n \<le> 90) \<or> (192 \<le> n \<and> n \<le> 222 \<and> n \<noteq> 215) then char_of (n + 32) else c)"

definition py_lower :: "string \<Rightarrow> string" where
  "py_lower s = map lower_char s"

text \<open>The set comprehension \<^verbatim>\<open>{t.lower() for t in text.split() if len(t) > 3}\<close>.\<close>

definition tokens :: "string \<Rightarrow> string set" where
  "tokens text = set (map py_lower (filter (\<lambda>t. length t > 3) (py_split text)))"

section \<open>Serialisation\<close>

text \<open>A string as \<^verbatim>\<open>json.dumps\<close> writes it (with \<^verbatim>\<open>ensure_ascii\<close>, the default).\<close>

definition json_char :: "char \<Rightarrow> string" where
  "json_char c =
     (let n = (of_char c :: nat) in
      if n = 34 then [CHR 0x5C, CHR 0x22]
      else if n = 92 then [CHR 0x5C, CHR 0x5C]
      else if n = 8 then [CHR 0x5C, CHR ''b'']
      else if n = 12 then [CHR 0x5C, CHR ''f'']
      else if n = 10 then [CHR 0x5C, CHR ''n'']
      else if n = 13 then [CHR 0x5C, CHR ''r'']
      else if n = 9 then [CHR 0x5C, CHR ''t'']
      else if 32 \<le> n \<and> n \<le> 126 then [c]
      else [CHR 0x5C, CHR ''u'', CHR ''0'', CHR ''0''] @ hex2 c)"

definition json_str :: "string \<Rightarrow> string" where
  "json_str s = [CHR 0x22] @ concat (map json_char s) @ [CHR 0x22]"

definition json_item :: "string \<times> string \<Rightarrow> string" where
  "json_item kv = json_str (fst kv) @ '': '' @ snd kv"

text \<open>
  \<^verbatim>\<open>json.dumps(v, sort_keys=sk)\<close>. An object that is none of the JSON types raises
  \<^verbatim>\<open>TypeError\<close>. The items of a dictionary are encoded and then, with \<^verbatim>\<open>sort_keys\<close>, put in
  the order of their keys (the encoder sorts the items first and encodes them second,
  which gives the same text).
\<close>

fun json_dumps :: "bool \<Rightarrow> pyval \<Rightarrow> py_error + string"
  and json_list :: "bool \<Rightarrow> pyval list \<Rightarrow> py_error + string list"
  and json_items :: "bool \<Rightarrow> (string \<times> pyval) list \<Rightarrow> py_error + (string \<times> string) list"
where
  "json_dumps sk PNone = Inr ''null''"
| "json_dumps sk (PBool b) = Inr (if b then ''true'' else ''false'')"
| "json_dumps sk (PInt i) = Inr (str_of_int i)"
| "json_dumps sk (PStr s) = Inr (json_str s)"
| "json_dumps sk (PList xs) =
     (case json_list sk xs of
        Inl e \<Rightarrow> Inl e
      | Inr ss \<Rightarrow> Inr (''['' @ py_join '', '' ss @ '']''))"
| "json_dumps sk (PDict kvs) =
     (case json_items sk kvs of
        Inl e \<Rightarrow> Inl e
      | Inr its \<Rightarrow>
          Inr (''{'' @ py_join '', '' (map json_item (if sk then sort_key fst its else its)) @ ''}''))"
| "json_dumps sk (PObj r attrs) = Inl TypeError"
| "json_list sk [] = Inr []"
| "json_list sk (x # xs) =
     (case json_dumps sk x of
        Inl e \<Rightarrow> Inl e
      | Inr s \<Rightarrow> (case json_list sk xs of Inl e \<Rightarrow> Inl e | Inr ss \<Rightarrow> Inr (s # ss)))"
| "json_items sk [] = Inr []"
| "json_items sk ((k, v) # kvs) =
     (case json_dumps sk v of
        Inl e \<Rightarrow> Inl e
      | Inr s \<Rightarrow> (case json_items sk kvs of Inl e \<Rightarrow> Inl e | Inr its \<Rightarrow> Inr ((k, s) # its)))"

text \<open>The item a dictionary entry is encoded to (with an empty text when the value does not serialise).\<close>

definition encoded :: "bool \<Rightarrow> string \<times> pyval \<Rightarrow> string \<times> string" where
  "encoded sk kv = (fst kv, case json_dumps sk (snd kv) of Inr s \<Rightarrow> s | Inl e \<Rightarrow> [])"

text \<open>\<^verbatim>\<open>repr\<close> of a string: the quote is chosen by the quotes the string holds.\<close>

definition repr_quote :: "string \<Rightarrow> char" where
  "repr_quote s = (if CHR 0x27 \<in> set s \<and> CHR 0x22 \<notin> set s then CHR 0x22 else CHR 0x27)"

definition repr_char :: "char \<Rightarrow> char \<Rightarrow> string" where
  "repr_char q c =
     (let n = (of_char c :: nat) in
      if c = q \<or> n = 92 then [CHR 0x5C, c]
      else if n = 9 then [CHR 0x5C, CHR ''t'']
      else if n = 10 then [CHR 0x5C, CHR ''n'']
      else if n = 13 then [CHR 0x5C, CHR ''r'']
      else if n < 32 \<or> n = 127 \<or> (128 \<le> n \<and> n \<le> 160) \<or> n = 173
        then [CHR 0x5C, CHR ''x''] @ hex2 c
      else [c])"

definition repr_str :: "string \<Rightarrow> string" where
  "repr_str s = (let q = repr_quote s in [q] @ concat (map (repr_char q) s) @ [q])"

fun py_repr :: "pyval \<Rightarrow> string"
  and repr_list :: "pyval list \<Rightarrow> string list"
  and repr_items :: "(string \<times> pyval) list \<Rightarrow> string list"
where
  "py_repr PNone = ''None''"
| "py_repr (PBool b) = (if b then ''True'' else ''False'')"
| "py_repr (PInt i) = str_of_int i"
| "py_repr (PStr s) = repr_str s"
| "py_repr (PList xs) = ''['' @ py_join '', '' (repr_list xs) @ '']''"
| "py_repr (PDict kvs) = ''{'' @ py_join '', '' (repr_items kvs) @ ''}''"
| "py_repr (PObj r attrs) = r"
| "repr_list [] = []"
| "repr_list (x # xs) = py_repr x # repr_list xs"
| "repr_items [] = []"
| "repr_items ((k, v) # kvs) = (repr_str k @ '': '' @ py_repr v) # repr_items kvs"

text \<open>\<^verbatim>\<open>str(v)\<close>, also what an f-string puts for \<^verbatim>\<open>{v}\<close>.\<close>

definition py_str :: "pyval \<Rightarrow> string" where
  "py_str v = (case v of PStr s \<Rightarrow> s | _ \<Rightarrow> py_repr v)"

section \<open>Tool names and filtering\<close>

text \<open>
  \<^verbatim>\<open>is_tool_name\<close>: the \<^verbatim>\<open>name\<close> entry of a dictionary, the \<^verbatim>\<open>name\<close> attribute of an
  object (replaced by the empty string when it is falsy); the built-in values have no
  such attribute.
\<close>

definition is_tool_name :: "pyval \<Rightarrow> pyval" where
  "is_tool_name obj =
     (if \<not> truthy obj then PStr []
      else case obj of
        PDict kvs \<Rightarrow> dict_get kvs ''name'' (PStr [])
      | PObj r attrs \<Rightarrow> (let n = dict_get attrs ''name'' (PStr []) in if truthy n then n else PStr [])
      | _ \<Rightarrow> PStr [])"

text \<open>The loop of \<^verbatim>\<open>filter_tools_by_role\<close> over the tools, for the resolved role.\<close>

fun filter_loop :: "policy \<Rightarrow> pyval \<Rightarrow> pyval list \<Rightarrow> py_error + pyval list" where
  "filter_loop pol role [] = Inr []"
| "filter_loop pol role (t # ts) =
     (let name = is_tool_name t in
      if \<not> truthy name then filter_loop pol role ts
      else case is_tool_allowed_for_role pol role name of
        Inl e \<Rightarrow> Inl e
      | Inr ok \<Rightarrow>
          (case filter_loop pol role ts of
             Inl e \<Rightarrow> Inl e
           | Inr rest \<Rightarrow> Inr (if ok then t # rest else rest)))"

definition filter_tools_by_role :: "policy \<Rightarrow> pyval \<Rightarrow> pyval list \<Rightarrow> py_error + pyval list" where
  "filter_tools_by_role pol config tools = filter_loop pol (get_role_from_config pol config) tools"

section \<open>Duplicate suppression\<close>

text \<open>
  \<^verbatim>\<open>_call_fingerprint\<close>: the name, a colon, and the arguments as JSON with sorted keys, or
  as \<^verbatim>\<open>str\<close> prints them when they cannot be serialised.
\<close>

definition call_fingerprint :: "pyval \<Rightarrow> py_error + string" where
  "call_fingerprint tool_call =
     (case py_get tool_call ''name'' (PStr []) of
        Inl e \<Rightarrow> Inl e
      | Inr name \<Rightarrow>
          (case py_get tool_call ''args'' (PDict []) of
             Inl e \<Rightarrow> Inl e
           | Inr args \<Rightarrow>
               (let args_str = (case json_dumps True args of Inr s \<Rightarrow> s | Inl e \<Rightarrow> py_str args)
                in Inr (py_str name @ '':'' @ args_str))))"

text \<open>The table \<^verbatim>\<open>_recent_calls\<close>: fingerprint to the time it was last recorded.\<close>

type_synonym call_table = "(string, real) fmap"

definition policy_window :: "policy \<Rightarrow> real" where
  "policy_window pol = (case duplicate_window_seconds pol of None \<Rightarrow> 300 | Some w \<Rightarrow> w)"

definition stale_keys :: "call_table \<Rightarrow> real \<Rightarrow> string fset" where
  "stale_keys tbl cutoff =
     ffilter (\<lambda>k. case fmlookup tbl k of None \<Rightarrow> False | Some v \<Rightarrow> v < cutoff) (fmdom tbl)"

definition prune :: "call_table \<Rightarrow> real \<Rightarrow> real \<Rightarrow> call_table" where
  "prune tbl now window =
     (if fcard (fmdom tbl) > 1000 then fmdrop_fset (stale_keys tbl (now - window)) tbl else tbl)"

text \<open>
  \<^verbatim>\<open>is_duplicate_call\<close> at clock reading \<open>now\<close>: the answer and the table afterwards.
  \<^verbatim>\<open>if last and ...\<close> tests the stored time for truth, so a stored \<open>0\<close> counts as absent.
\<close>

definition is_duplicate_call ::
  "policy \<Rightarrow> real \<Rightarrow> pyval \<Rightarrow> call_table \<Rightarrow> py_error + (bool \<times> call_table)" where
  "is_duplicate_call pol now tool_call tbl =
     (case call_fingerprint tool_call of
        Inl e \<Rightarrow> Inl e
      | Inr fp \<Rightarrow>
          (let window = policy_window pol in
           case fmlookup tbl fp of
             Some seen \<Rightarrow>
               if seen \<noteq> 0 \<and> now - seen < window then Inr (True, tbl)
               else Inr (False, prune (fmupd fp now tbl) now window)
           | None \<Rightarrow> Inr (False, prune (fmupd fp now tbl) now window)))"

section \<open>Intent alignment\<close>

text \<open>\<^verbatim>\<open>[str(m.content) for m in messages if hasattr(m, "content")]\<close>.\<close>

fun message_texts :: "pyval list \<Rightarrow> string list" where
  "message_texts [] = []"
| "message_texts (PObj r attrs # ms) =
     (case map_of attrs ''content'' of
        None \<Rightarrow> message_texts ms
      | Some c \<Rightarrow> py_str c # message_texts ms)"
| "message_texts (m # ms) = message_texts ms"

text \<open>
  The body of the \<^verbatim>\<open>try\<close> block of the alignment stage: \<open>Inr True\<close> when the call is
  found unrelated, \<open>Inl e\<close> when the block raises.
\<close>

definition unrelated :: "pyval list \<Rightarrow> pyval \<Rightarrow> py_error + bool" where
  "unrelated ms tool_call =
     (let user_text = py_join '' '' (message_texts ms) in
      case py_get tool_call ''args'' (PDict []) of
        Inl e \<Rightarrow> Inl e
      | Inr args \<Rightarrow>
          (case json_dumps False args of
             Inl e \<Rightarrow> Inl e
           | Inr args_text \<Rightarrow>
               (let user_tokens = tokens user_text; arg_tokens = tokens args_text in
                Inr (user_tokens \<noteq> {} \<and> arg_tokens \<noteq> {} \<and> user_tokens \<inter> arg_tokens = {}))))"

text \<open>The whole alignment stage: does it deny the call?\<close>

definition alignment_denies :: "pyval \<Rightarrow> pyval \<Rightarrow> bool" where
  "alignment_denies messages tool_call =
     (case messages of
        PList ms \<Rightarrow>
          (if ms = [] then False
           else case unrelated ms tool_call of Inl e \<Rightarrow> False | Inr b \<Rightarrow> b)
      | _ \<Rightarrow> False)"

section \<open>The validation chain\<close>

definition research_tools :: "pyval list" where
  "research_tools = [PStr ''ConductResearch'', PStr ''ResearchComplete'']"

definition msg_not_allowed_role :: "pyval \<Rightarrow> pyval \<Rightarrow> string" where
  "msg_not_allowed_role name role =
     ''Tool '' @ [CHR 0x27] @ py_str name @ [CHR 0x27] @ '' not allowed for role '' @
     [CHR 0x27] @ py_str role @ [CHR 0x27]"

definition msg_not_allowed_research :: "pyval \<Rightarrow> string" where
  "msg_not_allowed_research name =
     ''Tool '' @ [CHR 0x27] @ py_str name @ [CHR 0x27] @ '' not allowed during research orchestration''"

text \<open>
  \<^verbatim>\<open>validate_tool_call\<close> at clock reading \<open>now\<close>, with the table before; the result is the
  pair \<^verbatim>\<open>(allowed, reason)\<close> and the table afterwards, or the exception that escapes.
\<close>

definition validate_tool_call ::
  "policy \<Rightarrow> real \<Rightarrow> pyval \<Rightarrow> pyval \<Rightarrow> pyval \<Rightarrow> pyval \<Rightarrow> call_table
     \<Rightarrow> py_error + ((bool \<times> string) \<times> call_table)" where
  "validate_tool_call pol now config tool_call messages phase tbl =
     (case tool_call of
        PDict kvs \<Rightarrow>
          (case map_of kvs ''name'' of
             None \<Rightarrow> Inr ((False, ''Malformed tool_call''), tbl)
           | Some name \<Rightarrow>
               (let role = get_role_from_config pol config in
                case is_tool_allowed_for_role pol role name of
                  Inl e \<Rightarrow> Inl e
                | Inr False \<Rightarrow> Inr ((False, msg_not_allowed_role name role), tbl)
                | Inr True \<Rightarrow>
                    if phase = PStr ''clarify''
                      then Inr ((False, ''Tools prohibited during clarification phase''), tbl)
                    else if phase = PStr ''research'' \<and> name \<notin> set research_tools
                      then Inr ((False, msg_not_allowed_research name), tbl)
                    else
                      (case is_duplicate_call pol now tool_call tbl of
                         Inl e \<Rightarrow> Inr ((False, ''Duplicate check failed''), tbl)
                       | Inr (True, tbl') \<Rightarrow> Inr ((False, ''Duplicate tool call suppressed''), tbl')
                       | Inr (False, tbl') \<Rightarrow>
                           if alignment_denies messages tool_call
                             then Inr ((False, ''Tool call appears unrelated to user intent''), tbl')
                           else Inr ((True, ''allowed''), tbl'))))
      | _ \<Rightarrow> Inr ((False, ''Malformed tool_call''), tbl))"

section \<open>Equality of arguments up to insertion order\<close>

text \<open>
  Two values are the same up to the insertion order of dictionaries when they are equal,
  or lists of the same length with the same elements in turn, or dictionaries with the
  same keys and the same value under each key.
\<close>

inductive same_val :: "pyval \<Rightarrow> pyval \<Rightarrow> bool" where
  same_refl: "same_val v v"
| same_list: "list_all2 same_val xs ys \<Longrightarrow> same_val (PList xs) (PList ys)"
| same_dict:
    "distinct (map fst xs) \<Longrightarrow> distinct (map fst ys) \<Longrightarrow> fst ` set xs = fst ` set ys \<Longrightarrow>
     (\<forall>k v w. (k, v) \<in> set xs \<longrightarrow> (k, w) \<in> set ys \<longrightarrow> same_val v w) \<Longrightarrow>
     same_val (PDict xs) (PDict ys)"

section \<open>Sample inputs\<close>

text \<open>
  A policy with a role limited to the two orchestration tools, a role with the wildcard
  and a role with an empty list; configurations and messages as the pipeline passes them.
\<close>

definition sample_policy :: policy where
  "sample_policy =
     \<lparr>roles = Some [''researcher'' \<mapsto> \<lparr>allowed_tools = Some [''ConductResearch'', ''ResearchComplete'']\<rparr>,
                    ''admin'' \<mapsto> \<lparr>allowed_tools = Some [''*'']\<rparr>,
                    ''guest'' \<mapsto> \<lparr>allowed_tools = Some []\<rparr>],
      default_role = Some ''researcher'',
      duplicate_window_seconds = Some 300\<rparr>"

definition config_with_role :: "pyval \<Rightarrow> pyval" where
  "config_with_role r = PDict [(''configurable'', PDict [(''role'', r)])]"

definition tool_call_of :: "string \<Rightarrow> (string \<times> pyval) list \<Rightarrow> pyval" where
  "tool_call_of name args = PDict [(''name'', PStr name), (''args'', PDict args)]"

definition message_of :: "string \<Rightarrow> pyval" where
  "message_of text = PObj ''HumanMessage'' [(''content'', PStr text)]"

section \<open>Permission check: properties\<close>

lemma allowed_for_absent:
  "policy_roles pol role = None \<Longrightarrow> allowed_for pol (PStr role) = []"
  by (simp add: allowed_for_def)

lemma allowed_for_present:
  "policy_roles pol role = Some cfg \<Longrightarrow>
   allowed_for pol (PStr role) = (case allowed_tools cfg of None \<Rightarrow> [] | Some ts \<Rightarrow> ts)"
  by (simp add: allowed_for_def)

lemma sample_roles:
  "policy_roles sample_policy ''admin'' = Some \<lparr>allowed_tools = Some [''*'']\<rparr>"
  "policy_roles sample_policy ''guest'' = Some \<lparr>allowed_tools = Some []\<rparr>"
  "policy_roles sample_policy ''researcher'' =
     Some \<lparr>allowed_tools = Some [''ConductResearch'', ''ResearchComplete'']\<rparr>"
  "policy_roles sample_policy ''nobody'' = None"
  by (simp_all add: policy_roles_def sample_policy_def)

text \<open>
  C4: a role that is absent from the policy's roles, or whose allow-list is missing or
  empty, is allowed no tool at all; a role whose allow-list holds the wildcard \<^verbatim>\<open>*\<close> is
  allowed every tool name; any other role is allowed a tool exactly when the name is,
  literally, one of the strings of its allow-list.
\<close>

theorem is_tool_allowed_for_role_cases:
  "(policy_roles pol role = None \<longrightarrow>
      is_tool_allowed_for_role pol (PStr role) name = Inr False) \<and>
   (policy_roles pol role = Some cfg \<and> (allowed_tools cfg = None \<or> allowed_tools cfg = Some []) \<longrightarrow>
      is_tool_allowed_for_role pol (PStr role) name = Inr False) \<and>
   (policy_roles pol role = Some cfg \<and> allowed_tools cfg = Some ts \<and> ''*'' \<in> set ts \<longrightarrow>
      is_tool_allowed_for_role pol (PStr role) name = Inr True) \<and>
   (policy_roles pol role = Some cfg \<and> allowed_tools cfg = Some ts \<and> ts \<noteq> [] \<and> ''*'' \<notin> set ts \<longrightarrow>
      is_tool_allowed_for_role pol (PStr role) name = Inr (\<exists>t \<in> set ts. name = PStr t))"
proof (intro conjI impI)
  assume "policy_roles pol role = None"
  then show "is_tool_allowed_for_role pol (PStr role) name = Inr False"
    by (simp add: is_tool_allowed_for_role_def allowed_for_absent)
next
  assume "policy_roles pol role = Some cfg \<and> (allowed_tools cfg = None \<or> allowed_tools cfg = Some [])"
  then have "allowed_for pol (PStr role) = []"
    by (auto simp: allowed_for_present)
  then show "is_tool_allowed_for_role pol (PStr role) name = Inr False"
    by (simp add: is_tool_allowed_for_role_def)
next
  assume "policy_roles pol role = Some cfg \<and> allowed_tools cfg = Some ts \<and> ''*'' \<in> set ts"
  then have "allowed_for pol (PStr role) = ts" and "''*'' \<in> set ts"
    by (simp_all add: allowed_for_present)
  then show "is_tool_allowed_for_role pol (PStr role) name = Inr True"
    by (auto simp: is_tool_allowed_for_role_def)
next
  assume "policy_roles pol role = Some cfg \<and> allowed_tools cfg = Some ts \<and> ts \<noteq> [] \<and> ''*'' \<notin> set ts"
  then have "allowed_for pol (PStr role) = ts" and "ts \<noteq> []" and "''*'' \<notin> set ts"
    by (simp_all add: allowed_for_present)
  then show "is_tool_allowed_for_role pol (PStr role) name = Inr (\<exists>t \<in> set ts. name = PStr t)"
    by (auto simp: is_tool_allowed_for_role_def)
qed

theorem is_tool_allowed_for_role_cases_witness:
  "policy_roles sample_policy ''nobody'' = None \<and>
   is_tool_allowed_for_role sample_policy (PStr ''nobody'') (PStr ''ConductResearch'') = Inr False \<and>
   policy_roles sample_policy ''guest'' = Some \<lparr>allowed_tools = Some []\<rparr> \<and>
   is_tool_allowed_for_role sample_policy (PStr ''guest'') (PStr ''ConductResearch'') = Inr False \<and>
   policy_roles sample_policy ''admin'' = Some \<lparr>allowed_tools = Some [''*'']\<rparr> \<and>
   is_tool_allowed_for_role sample_policy (PStr ''admin'') (PStr ''never_seen_before'') = Inr True \<and>
   policy_roles sample_policy ''researcher'' =
     Some \<lparr>allowed_tools = Some [''ConductResearch'', ''ResearchComplete'']\<rparr> \<and>
   is_tool_allowed_for_role sample_policy (PStr ''researcher'') (PStr ''ConductResearch'') = Inr True \<and>
   is_tool_allowed_for_role sample_policy (PStr ''researcher'') (PStr ''Conduct'') = Inr False"
  using
    is_tool_allowed_for_role_cases [where pol = sample_policy and role = "''nobody''"
      and name = "PStr ''ConductResearch''"]
    is_tool_allowed_for_role_cases [where pol = sample_policy and role = "''guest''"
      and cfg = "\<lparr>allowed_tools = Some []\<rparr>" and name = "PStr ''ConductResearch''"]
    is_tool_allowed_for_role_cases [where pol = sample_policy and role = "''admin''"
      and cfg = "\<lparr>allowed_tools = Some [''*'']\<rparr>" and name = "PStr ''never_seen_before''"
      and ts = "[''*'']"]
    is_tool_allowed_for_role_cases [where pol = sample_policy and role = "''researcher''"
      and cfg = "\<lparr>allowed_tools = Some [''ConductResearch'', ''ResearchComplete'']\<rparr>"
      and name = "PStr ''ConductResearch''" and ts = "[''ConductResearch'', ''ResearchComplete'']"]
    is_tool_allowed_for_role_cases [where pol = sample_policy and role = "''researcher''"
      and cfg = "\<lparr>allowed_tools = Some [''ConductResearch'', ''ResearchComplete'']\<rparr>"
      and name = "PStr ''Conduct''" and ts = "[''ConductResearch'', ''ResearchComplete'']"]
  by (simp add: sample_roles)

section \<open>Role resolution: properties\<close>









lemma get_role_config_with_role:
  "truthy r \<Longrightarrow> get_role_from_config pol (config_with_role r) = r"
  by (simp add: get_role_from_config_def role_lookup_def config_with_role_def dict_get_def)

section \<open>Filtering tools: properties\<close>

lemma is_tool_allowed_hashable:
  "hashable role \<Longrightarrow> \<exists>b. is_tool_allowed_for_role pol role name = Inr b"
  by (auto simp: is_tool_allowed_for_role_def Let_def)

lemma filter_loop_hashable:
  "hashable role \<Longrightarrow>
   filter_loop pol role tools =
     Inr (filter (\<lambda>t. truthy (is_tool_name t) \<and>
                        is_tool_allowed_for_role pol role (is_tool_name t) = Inr True) tools)"
proof (induction tools)
  case Nil
  then show ?case by simp
next
  case (Cons t ts)
  obtain b where b: "is_tool_allowed_for_role pol role (is_tool_name t) = Inr b"
    using is_tool_allowed_hashable [OF Cons.prems] by blast
  show ?case
    using Cons b by (cases b) (simp_all add: Let_def)
qed

lemma is_tool_name_missing:
  "(t = PDict kvs \<or> t = PObj r kvs) \<Longrightarrow>
   map_of kvs ''name'' = None \<or> map_of kvs ''name'' = Some (PStr []) \<Longrightarrow> is_tool_name t = PStr []"
  by (auto simp: is_tool_name_def dict_get_def Let_def)

lemma is_tool_name_builtin:
  "(\<forall>kvs. t \<noteq> PDict kvs) \<Longrightarrow> (\<forall>r kvs. t \<noteq> PObj r kvs) \<Longrightarrow> is_tool_name t = PStr []"
  by (cases t) (auto simp: is_tool_name_def)

text \<open>
  C10: for a configuration whose resolved role can be looked up in the policy (a role that
  is not a list or a dictionary), \<^verbatim>\<open>filter_tools_by_role\<close> returns, in their original order,
  exactly the tools whose extracted name is truthy and allowed for that role; a dictionary
  or object without a \<^verbatim>\<open>name\<close>, or with an empty one, is dropped and raises nothing.
\<close>

theorem filter_tools_by_role_spec:
  assumes "hashable (get_role_from_config pol config)"
  shows "\<exists>kept. filter_tools_by_role pol config tools = Inr kept \<and>
     kept = filter (\<lambda>t. truthy (is_tool_name t) \<and>
              is_tool_allowed_for_role pol (get_role_from_config pol config) (is_tool_name t) = Inr True) tools \<and>
     (\<forall>t kvs r. (t = PDict kvs \<or> t = PObj r kvs) \<and>
          (map_of kvs ''name'' = None \<or> map_of kvs ''name'' = Some (PStr [])) \<longrightarrow> t \<notin> set kept)"
proof -
  have "\<not> truthy (is_tool_name t)"
    if "(t = PDict kvs \<or> t = PObj r kvs) \<and>
        (map_of kvs ''name'' = None \<or> map_of kvs ''name'' = Some (PStr []))" for t kvs r
    using that is_tool_name_missing [of t kvs r] by auto
  then show ?thesis
    using assms by (simp add: filter_tools_by_role_def filter_loop_hashable) blast
qed

theorem filter_tools_by_role_spec_witness:
  "hashable (get_role_from_config sample_policy (config_with_role (PStr ''researcher''))) \<and>
   filter_tools_by_role sample_policy (config_with_role (PStr ''researcher''))
     [PDict [(''name'', PStr ''ConductResearch'')],
      PObj ''think_tool'' [(''name'', PStr ''think_tool'')],
      PDict [(''description'', PStr ''no name here'')],
      PObj ''ResearchComplete'' [(''name'', PStr ''ResearchComplete'')],
      PStr ''ConductResearch''] =
   Inr [PDict [(''name'', PStr ''ConductResearch'')],
        PObj ''ResearchComplete'' [(''name'', PStr ''ResearchComplete'')]]"
proof -
  have role: "get_role_from_config sample_policy (config_with_role (PStr ''researcher'')) = PStr ''researcher''"
    by (simp add: get_role_config_with_role)
  have h: "hashable (get_role_from_config sample_policy (config_with_role (PStr ''researcher'')))"
    by (simp add: role)
  have al: "allowed_for sample_policy (PStr ''researcher'') = [''ConductResearch'', ''ResearchComplete'']"
    by (simp add: allowed_for_def sample_roles)
  show ?thesis
    using h filter_tools_by_role_spec [OF h, where tools =
      "[PDict [(''name'', PStr ''ConductResearch'')],
        PObj ''think_tool'' [(''name'', PStr ''think_tool'')],
        PDict [(''description'', PStr ''no name here'')],
        PObj ''ResearchComplete'' [(''name'', PStr ''ResearchComplete'')],
        PStr ''ConductResearch'']"]
    by (simp add: role is_tool_name_def dict_get_def is_tool_allowed_for_role_def al)
qed

section \<open>The validation chain: properties\<close>

lemma prune_single: "prune (fmupd k v fmempty) now w = fmupd k v fmempty"
  by (simp add: prune_def fcard_finsert_if fcard_fempty)

lemma call_fingerprint_dict: "\<exists>fp. call_fingerprint (PDict kvs) = Inr fp"
  by (simp add: call_fingerprint_def Let_def)

lemma fp_not_stale: "0 \<le> w \<Longrightarrow> fp |\<notin>| stale_keys (fmupd fp now tbl) (now - w)"
  by (simp add: stale_keys_def)

lemma prune_keeps:
  "0 \<le> w \<Longrightarrow> fmlookup (prune (fmupd fp now tbl) now w) fp = Some now"
  by (simp add: prune_def fp_not_stale)

lemma is_duplicate_call_fp:
  "call_fingerprint tool_call = Inr fp \<Longrightarrow>
   is_duplicate_call pol now tool_call tbl =
     (if (\<exists>seen. fmlookup tbl fp = Some seen \<and> seen \<noteq> 0 \<and> now - seen < policy_window pol)
      then Inr (True, tbl)
      else Inr (False, prune (fmupd fp now tbl) now (policy_window pol)))"
  by (auto simp: is_duplicate_call_def Let_def split: option.splits)

lemma validate_named:
  assumes "map_of kvs ''name'' = Some name"
    and "is_tool_allowed_for_role pol (get_role_from_config pol config) name = Inr b"
  shows "validate_tool_call pol now config (PDict kvs) messages phase tbl =
     (if \<not> b then Inr ((False, msg_not_allowed_role name (get_role_from_config pol config)), tbl)
      else if phase = PStr ''clarify''
        then Inr ((False, ''Tools prohibited during clarification phase''), tbl)
      else if phase = PStr ''research'' \<and> name \<notin> set research_tools
        then Inr ((False, msg_not_allowed_research name), tbl)
      else (case is_duplicate_call pol now (PDict kvs) tbl of
              Inl e \<Rightarrow> Inr ((False, ''Duplicate check failed''), tbl)
            | Inr (True, tbl') \<Rightarrow> Inr ((False, ''Duplicate tool call suppressed''), tbl')
            | Inr (False, tbl') \<Rightarrow>
                if alignment_denies messages (PDict kvs)
                  then Inr ((False, ''Tool call appears unrelated to user intent''), tbl')
                else Inr ((True, ''allowed''), tbl')))"
  using assms by (cases b) (simp_all add: validate_tool_call_def Let_def)

lemma validate_unhashable:
  assumes "tool_call = PDict kvs" "map_of kvs ''name'' = Some name"
    and "is_tool_allowed_for_role pol (get_role_from_config pol config) name = Inl e"
  shows "validate_tool_call pol now config tool_call messages phase tbl = Inl e"
  using assms by (simp add: validate_tool_call_def Let_def)

lemma validate_shape_cases:
  obtains (malformed) "(\<forall>kvs. tool_call \<noteq> PDict kvs) \<or> (\<exists>kvs. tool_call = PDict kvs \<and> map_of kvs ''name'' = None)"
  | (named) kvs name where "tool_call = PDict kvs" "map_of kvs ''name'' = Some name"
  by (cases tool_call) auto

lemma validate_malformed_result:
  "(\<forall>kvs. tool_call \<noteq> PDict kvs) \<or> (\<exists>kvs. tool_call = PDict kvs \<and> map_of kvs ''name'' = None) \<Longrightarrow>
   validate_tool_call pol now config tool_call messages phase tbl =
     Inr ((False, ''Malformed tool_call''), tbl)"
  by (cases tool_call) (auto simp: validate_tool_call_def)

lemma validate_clarify_never_allowed:
  "validate_tool_call pol now config tool_call messages (PStr ''clarify'') tbl \<noteq> Inr ((True, reason), tbl')"
proof (cases tool_call rule: validate_shape_cases)
  case malformed
  then show ?thesis by (simp add: validate_malformed_result)
next
  case (named kvs name)
  show ?thesis
  proof (cases "is_tool_allowed_for_role pol (get_role_from_config pol config) name")
    case (Inl e)
    then show ?thesis using named by (simp add: validate_unhashable)
  next
    case (Inr b)
    then show ?thesis using named by (simp add: validate_named)
  qed
qed

lemma validate_clarify_denied:
  assumes "hashable (get_role_from_config pol config)"
  shows "\<exists>reason. validate_tool_call pol now config tool_call messages (PStr ''clarify'') tbl =
     Inr ((False, reason), tbl)"
proof (cases tool_call rule: validate_shape_cases)
  case malformed
  then show ?thesis by (simp add: validate_malformed_result)
next
  case (named kvs name)
  obtain b where "is_tool_allowed_for_role pol (get_role_from_config pol config) name = Inr b"
    using is_tool_allowed_hashable [OF assms] by blast
  then show ?thesis using named by (simp add: validate_named)
qed

lemma msg_role_neq:
  "msg_not_allowed_role n r \<noteq> ''Tool call appears unrelated to user intent''"
  "msg_not_allowed_role n r \<noteq> ''allowed''"
  "msg_not_allowed_role n r \<noteq> ''Duplicate tool call suppressed''"
  "msg_not_allowed_role n r \<noteq> ''Duplicate check failed''"
  by (simp_all add: msg_not_allowed_role_def)

lemma msg_research_neq:
  "msg_not_allowed_research n \<noteq> ''Tool call appears unrelated to user intent''"
  "msg_not_allowed_research n \<noteq> ''allowed''"
  "msg_not_allowed_research n \<noteq> ''Duplicate tool call suppressed''"
  "msg_not_allowed_research n \<noteq> ''Duplicate check failed''"
  by (simp_all add: msg_not_allowed_research_def)

lemma late_reasons:
  assumes "reason = ''Tool call appears unrelated to user intent'' \<or> reason = ''allowed''"
  shows "\<not> (reason = ''Malformed tool_call'' \<or> (\<exists>name role. reason = msg_not_allowed_role name role) \<or>
          reason = ''Tools prohibited during clarification phase'' \<or>
          (\<exists>name. reason = msg_not_allowed_research name))"
  using assms msg_role_neq msg_research_neq by (auto dest: sym)

lemma is_duplicate_call_cases:
  obtains (raise) e where "is_duplicate_call pol now tool_call tbl = Inl e"
  | (dup) "is_duplicate_call pol now tool_call tbl = Inr (True, tbl)"
  | (fresh) fp where "call_fingerprint tool_call = Inr fp"
      "is_duplicate_call pol now tool_call tbl = Inr (False, prune (fmupd fp now tbl) now (policy_window pol))"
proof (cases "call_fingerprint tool_call")
  case (Inl e)
  then have "is_duplicate_call pol now tool_call tbl = Inl e"
    by (simp add: is_duplicate_call_def)
  then show ?thesis by (rule raise)
next
  case (Inr fp)
  show ?thesis
  proof (cases "\<exists>seen. fmlookup tbl fp = Some seen \<and> seen \<noteq> 0 \<and> now - seen < policy_window pol")
    case True
    then have "is_duplicate_call pol now tool_call tbl = Inr (True, tbl)"
      by (simp add: is_duplicate_call_fp [OF Inr])
    then show ?thesis by (rule dup)
  next
    case False
    then have "is_duplicate_call pol now tool_call tbl =
        Inr (False, prune (fmupd fp now tbl) now (policy_window pol))"
      by (simp add: is_duplicate_call_fp [OF Inr])
    then show ?thesis by (rule fresh [OF Inr])
  qed
qed

text \<open>
  C1, as amended: a tool call that is not a dictionary, or is a dictionary without the key
  \<^verbatim>\<open>name\<close>, is denied as malformed whatever the policy, the configuration, the messages
  and the phase are, and the table of recent calls is left as it was.
\<close>

theorem validate_tool_call_malformed:
  "(\<forall>kvs. tool_call \<noteq> PDict kvs) \<or> (\<exists>kvs. tool_call = PDict kvs \<and> map_of kvs ''name'' = None) \<Longrightarrow>
   validate_tool_call pol now config tool_call messages phase tbl =
     Inr ((False, ''Malformed tool_call''), tbl)"
  by (cases tool_call) (auto simp: validate_tool_call_def)

theorem validate_tool_call_malformed_witness:
  "validate_tool_call sample_policy 1000 (config_with_role (PStr ''admin'')) (PStr ''ConductResearch'')
     PNone (PStr ''research'') fmempty = Inr ((False, ''Malformed tool_call''), fmempty) \<and>
   validate_tool_call sample_policy 1000 (config_with_role (PStr ''admin''))
     (PDict [(''args'', PDict [])]) PNone (PStr ''research'') fmempty =
     Inr ((False, ''Malformed tool_call''), fmempty)"
  using
    validate_tool_call_malformed [where tool_call = "PStr ''ConductResearch''" and pol = sample_policy
      and now = 1000 and config = "config_with_role (PStr ''admin'')" and messages = PNone
      and phase = "PStr ''research''" and tbl = fmempty]
    validate_tool_call_malformed [where tool_call = "PDict [(''args'', PDict [])]" and pol = sample_policy
      and now = 1000 and config = "config_with_role (PStr ''admin'')" and messages = PNone
      and phase = "PStr ''research''" and tbl = fmempty]
  by simp

text \<open>
  C1, as stated, fails: a call whose \<^verbatim>\<open>name\<close> is the empty string is not rejected as
  malformed. Under a wildcard role and outside the two gated phases it is allowed.
\<close>

theorem validate_tool_call_empty_name_allowed:
  "validate_tool_call sample_policy 1000 (config_with_role (PStr ''admin'')) (PDict [(''name'', PStr [])])
     PNone (PStr ''final_report'') fmempty = Inr ((True, ''allowed''), fmupd '':{}'' 1000 fmempty)"
proof -
  have fp: "call_fingerprint (PDict [(''name'', PStr [])]) = Inr '':{}''"
    by (simp add: call_fingerprint_def dict_get_def py_str_def)
  have role: "get_role_from_config sample_policy (config_with_role (PStr ''admin'')) = PStr ''admin''"
    by (simp add: get_role_config_with_role)
  have ok: "is_tool_allowed_for_role sample_policy (PStr ''admin'') (PStr []) = Inr True"
    by (simp add: is_tool_allowed_for_role_def allowed_for_def sample_roles)
  show ?thesis
    by (simp add: validate_tool_call_def role ok is_duplicate_call_def fp prune_single
        alignment_denies_def)
qed



text \<open>
  C5: in phase \<^verbatim>\<open>clarify\<close> no call is ever allowed, and (for a role that can be looked up
  in the policy) every call is denied with the table unchanged, a call permitted by the
  role with the clarification reason; in phase \<^verbatim>\<open>research\<close> a call permitted by the role
  whose name is neither \<^verbatim>\<open>ConductResearch\<close> nor \<^verbatim>\<open>ResearchComplete\<close> is denied by the phase
  gate; for every other phase value the result of a call permitted by the role does not
  depend on the phase, and the call is allowed when it is neither a duplicate nor found
  unrelated.
\<close>

theorem validate_tool_call_phase_gate:
  "(phase = PStr ''clarify'' \<longrightarrow>
      (\<forall>reason tbl'. validate_tool_call pol now config tool_call messages phase tbl \<noteq>
          Inr ((True, reason), tbl')) \<and>
      (hashable (get_role_from_config pol config) \<longrightarrow>
        (\<exists>reason. validate_tool_call pol now config tool_call messages phase tbl =
            Inr ((False, reason), tbl))) \<and>
      (tool_call = PDict kvs \<and> map_of kvs ''name'' = Some name \<and>
       is_tool_allowed_for_role pol (get_role_from_config pol config) name = Inr True \<longrightarrow>
         validate_tool_call pol now config tool_call messages phase tbl =
           Inr ((False, ''Tools prohibited during clarification phase''), tbl))) \<and>
   (phase = PStr ''research'' \<and> tool_call = PDict kvs \<and> map_of kvs ''name'' = Some name \<and>
    name \<noteq> PStr ''ConductResearch'' \<and> name \<noteq> PStr ''ResearchComplete'' \<and>
    is_tool_allowed_for_role pol (get_role_from_config pol config) name = Inr True \<longrightarrow>
      validate_tool_call pol now config tool_call messages phase tbl =
        Inr ((False, msg_not_allowed_research name), tbl)) \<and>
   (phase \<noteq> PStr ''clarify'' \<and> phase \<noteq> PStr ''research'' \<and>
    tool_call = PDict kvs \<and> map_of kvs ''name'' = Some name \<and>
    is_tool_allowed_for_role pol (get_role_from_config pol config) name = Inr True \<longrightarrow>
      (\<forall>other. other \<noteq> PStr ''clarify'' \<and> other \<noteq> PStr ''research'' \<longrightarrow>
         validate_tool_call pol now config tool_call messages other tbl =
         validate_tool_call pol now config tool_call messages phase tbl) \<and>
      (\<forall>tbl'. is_duplicate_call pol now tool_call tbl = Inr (False, tbl') \<and>
         \<not> alignment_denies messages tool_call \<longrightarrow>
         validate_tool_call pol now config tool_call messages phase tbl =
           Inr ((True, ''allowed''), tbl')))"
proof (intro conjI impI allI)
  fix reason tbl'
  assume "phase = PStr ''clarify''"
  then show "validate_tool_call pol now config tool_call messages phase tbl \<noteq> Inr ((True, reason), tbl')"
    by (simp add: validate_clarify_never_allowed)
next
  assume "phase = PStr ''clarify''" "hashable (get_role_from_config pol config)"
  then show "\<exists>reason. validate_tool_call pol now config tool_call messages phase tbl =
      Inr ((False, reason), tbl)"
    by (simp add: validate_clarify_denied)
next
  assume "phase = PStr ''clarify''"
    "tool_call = PDict kvs \<and> map_of kvs ''name'' = Some name \<and>
     is_tool_allowed_for_role pol (get_role_from_config pol config) name = Inr True"
  then show "validate_tool_call pol now config tool_call messages phase tbl =
      Inr ((False, ''Tools prohibited during clarification phase''), tbl)"
    by (simp add: validate_named)
next
  assume "phase = PStr ''research'' \<and> tool_call = PDict kvs \<and> map_of kvs ''name'' = Some name \<and>
    name \<noteq> PStr ''ConductResearch'' \<and> name \<noteq> PStr ''ResearchComplete'' \<and>
    is_tool_allowed_for_role pol (get_role_from_config pol config) name = Inr True"
  then show "validate_tool_call pol now config tool_call messages phase tbl =
      Inr ((False, msg_not_allowed_research name), tbl)"
    by (simp add: validate_named research_tools_def)
next
  fix other
  assume "phase \<noteq> PStr ''clarify'' \<and> phase \<noteq> PStr ''research'' \<and>
    tool_call = PDict kvs \<and> map_of kvs ''name'' = Some name \<and>
    is_tool_allowed_for_role pol (get_role_from_config pol config) name = Inr True"
    "other \<noteq> PStr ''clarify'' \<and> other \<noteq> PStr ''research''"
  then show "validate_tool_call pol now config tool_call messages other tbl =
      validate_tool_call pol now config tool_call messages phase tbl"
    by (simp add: validate_named)
next
  fix tbl'
  assume "phase \<noteq> PStr ''clarify'' \<and> phase \<noteq> PStr ''research'' \<and>
    tool_call = PDict kvs \<and> map_of kvs ''name'' = Some name \<and>
    is_tool_allowed_for_role pol (get_role_from_config pol config) name = Inr True"
    "is_duplicate_call pol now tool_call tbl = Inr (False, tbl') \<and>
     \<not> alignment_denies messages tool_call"
  then show "validate_tool_call pol now config tool_call messages phase tbl = Inr ((True, ''allowed''), tbl')"
    by (simp add: validate_named)
qed

theorem validate_tool_call_phase_gate_witness:
  "hashable (get_role_from_config sample_policy (config_with_role (PStr ''admin''))) \<and>
   is_tool_allowed_for_role sample_policy
     (get_role_from_config sample_policy (config_with_role (PStr ''admin''))) (PStr ''web_search'') = Inr True \<and>
   validate_tool_call sample_policy 1000 (config_with_role (PStr ''admin''))
     (PDict [(''name'', PStr ''web_search'')]) PNone (PStr ''clarify'') fmempty =
     Inr ((False, ''Tools prohibited during clarification phase''), fmempty) \<and>
   validate_tool_call sample_policy 1000 (config_with_role (PStr ''admin''))
     (PDict [(''name'', PStr ''web_search'')]) PNone (PStr ''research'') fmempty =
     Inr ((False, msg_not_allowed_research (PStr ''web_search'')), fmempty) \<and>
   validate_tool_call sample_policy 1000 (config_with_role (PStr ''admin''))
     (PDict [(''name'', PStr ''web_search'')]) PNone (PStr ''final_report'') fmempty =
     Inr ((True, ''allowed''), fmupd ''web_search:{}'' 1000 fmempty) \<and>
   validate_tool_call sample_policy 1000 (config_with_role (PStr ''admin''))
     (PDict [(''name'', PStr ''web_search'')]) PNone (PStr ''compress'') fmempty =
   validate_tool_call sample_policy 1000 (config_with_role (PStr ''admin''))
     (PDict [(''name'', PStr ''web_search'')]) PNone (PStr ''final_report'') fmempty"
proof -
  have role: "get_role_from_config sample_policy (config_with_role (PStr ''admin'')) = PStr ''admin''"
    by (simp add: get_role_config_with_role)
  have ok: "is_tool_allowed_for_role sample_policy (PStr ''admin'') (PStr ''web_search'') = Inr True"
    by (simp add: is_tool_allowed_for_role_def allowed_for_def sample_roles)
  have fp: "call_fingerprint (PDict [(''name'', PStr ''web_search'')]) = Inr ''web_search:{}''"
    by (simp add: call_fingerprint_def dict_get_def py_str_def)
  have fresh: "is_duplicate_call sample_policy 1000 (PDict [(''name'', PStr ''web_search'')]) fmempty =
      Inr (False, fmupd ''web_search:{}'' 1000 fmempty)"
    by (simp add: is_duplicate_call_fp [OF fp] prune_single)
  have al: "\<not> alignment_denies PNone (PDict [(''name'', PStr ''web_search'')])"
    by (simp add: alignment_denies_def)
  note inst = validate_tool_call_phase_gate [where pol = sample_policy and now = 1000
      and config = "config_with_role (PStr ''admin'')" and tool_call = "PDict [(''name'', PStr ''web_search'')]"
      and kvs = "[(''name'', PStr ''web_search'')]" and name = "PStr ''web_search''"
      and messages = PNone and tbl = fmempty]
  have h: "hashable (get_role_from_config sample_policy (config_with_role (PStr ''admin'')))"
    by (simp add: role)
  have ok': "is_tool_allowed_for_role sample_policy
      (get_role_from_config sample_policy (config_with_role (PStr ''admin''))) (PStr ''web_search'') = Inr True"
    by (simp add: role ok)
  have clarify: "validate_tool_call sample_policy 1000 (config_with_role (PStr ''admin''))
      (PDict [(''name'', PStr ''web_search'')]) PNone (PStr ''clarify'') fmempty =
      Inr ((False, ''Tools prohibited during clarification phase''), fmempty)"
    using inst [where phase = "PStr ''clarify''"] ok' by simp
  have research: "validate_tool_call sample_policy 1000 (config_with_role (PStr ''admin''))
      (PDict [(''name'', PStr ''web_search'')]) PNone (PStr ''research'') fmempty =
      Inr ((False, msg_not_allowed_research (PStr ''web_search'')), fmempty)"
    using inst [where phase = "PStr ''research''"] ok' by simp
  have p: "PStr ''final_report'' \<noteq> PStr ''clarify'' \<and> PStr ''final_report'' \<noteq> PStr ''research'' \<and>
      PDict [(''name'', PStr ''web_search'')] = PDict [(''name'', PStr ''web_search'')] \<and>
      map_of [(''name'', PStr ''web_search'')] ''name'' = Some (PStr ''web_search'') \<and>
      is_tool_allowed_for_role sample_policy
        (get_role_from_config sample_policy (config_with_role (PStr ''admin''))) (PStr ''web_search'') = Inr True"
    using ok' by simp
  note other = inst [where phase = "PStr ''final_report''", THEN conjunct2, THEN conjunct2, THEN mp, OF p]
  have indep: "validate_tool_call sample_policy 1000 (config_with_role (PStr ''admin''))
      (PDict [(''name'', PStr ''web_search'')]) PNone (PStr ''compress'') fmempty =
    validate_tool_call sample_policy 1000 (config_with_role (PStr ''admin''))
      (PDict [(''name'', PStr ''web_search'')]) PNone (PStr ''final_report'') fmempty"
    using other [THEN conjunct1, THEN spec, of "PStr ''compress''"] by simp
  have allowed: "validate_tool_call sample_policy 1000 (config_with_role (PStr ''admin''))
      (PDict [(''name'', PStr ''web_search'')]) PNone (PStr ''final_report'') fmempty =
      Inr ((True, ''allowed''), fmupd ''web_search:{}'' 1000 fmempty)"
    using other [THEN conjunct2, THEN spec, of "fmupd ''web_search:{}'' 1000 fmempty"] fresh al by simp
  show ?thesis
    using h ok' clarify research allowed indep by simp
qed

text \<open>
  C3: whenever \<^verbatim>\<open>validate_tool_call\<close> answers with the malformed, role, clarification or
  research reason, the table of recent calls is the one it started from; whenever it
  answers that the call appears unrelated to the user's intent (and the window is not
  negative), the duplicate stage has answered not-duplicate and the table returned holds
  \<open>now\<close> under the call's fingerprint.
\<close>

theorem validate_tool_call_frame:
  assumes "validate_tool_call pol now config tool_call messages phase tbl = Inr ((ok, reason), tbl')"
  shows "(reason = ''Malformed tool_call'' \<or> (\<exists>name role. reason = msg_not_allowed_role name role) \<or>
          reason = ''Tools prohibited during clarification phase'' \<or>
          (\<exists>name. reason = msg_not_allowed_research name) \<longrightarrow> tbl' = tbl) \<and>
         (reason = ''Tool call appears unrelated to user intent'' \<and> 0 \<le> policy_window pol \<longrightarrow>
            is_duplicate_call pol now tool_call tbl = Inr (False, tbl') \<and>
            (\<exists>fp. call_fingerprint tool_call = Inr fp \<and> fmlookup tbl' fp = Some now))"
proof (cases tool_call rule: validate_shape_cases)
  case malformed
  then have "tbl' = tbl" "reason = ''Malformed tool_call''"
    using assms by (simp_all add: validate_malformed_result)
  then show ?thesis by simp
next
  case (named kvs name)
  show ?thesis
  proof (cases "is_tool_allowed_for_role pol (get_role_from_config pol config) name")
    case (Inl e)
    then show ?thesis using named assms by (simp add: validate_unhashable)
  next
    case (Inr b)
    note v = validate_named [OF named(2) Inr, of now messages phase tbl, folded named(1)]
    show ?thesis
    proof (cases "\<not> b \<or> phase = PStr ''clarify'' \<or> (phase = PStr ''research'' \<and> name \<notin> set research_tools)")
      case True
      then have "tbl' = tbl" "reason \<noteq> ''Tool call appears unrelated to user intent''"
        using assms v by (auto simp: msg_role_neq msg_research_neq split: if_splits)
      then show ?thesis by simp
    next
      case False
      then have v': "validate_tool_call pol now config tool_call messages phase tbl =
        (case is_duplicate_call pol now tool_call tbl of
              Inl e \<Rightarrow> Inr ((False, ''Duplicate check failed''), tbl)
            | Inr (True, tbl') \<Rightarrow> Inr ((False, ''Duplicate tool call suppressed''), tbl')
            | Inr (False, tbl') \<Rightarrow>
                if alignment_denies messages tool_call
                  then Inr ((False, ''Tool call appears unrelated to user intent''), tbl')
                else Inr ((True, ''allowed''), tbl'))"
        by (auto simp: v)
      show ?thesis
      proof (cases pol now tool_call tbl rule: is_duplicate_call_cases)
        case (raise e)
        then show ?thesis using assms v' by auto
      next
        case dup
        then show ?thesis using assms v' by auto
      next
        case (fresh fp)
        have r: "reason = ''Tool call appears unrelated to user intent'' \<or> reason = ''allowed''"
          and t: "tbl' = prune (fmupd fp now tbl) now (policy_window pol)"
          using assms v' fresh by (auto split: if_splits)
        show ?thesis
          using late_reasons [OF r] fresh t by (simp add: prune_keeps)
      qed
    qed
  qed
qed

theorem validate_tool_call_frame_witness:
  "validate_tool_call sample_policy 1000 (config_with_role (PStr ''guest''))
     (tool_call_of ''ConductResearch'' []) PNone (PStr ''research'') fmempty =
     Inr ((False, msg_not_allowed_role (PStr ''ConductResearch'') (PStr ''guest'')), fmempty) \<and>
   0 \<le> policy_window sample_policy \<and>
   (\<exists>tbl'. validate_tool_call sample_policy 1000 (config_with_role (PStr ''admin''))
       (tool_call_of ''ConductResearch'' [(''target'', PStr ''delete_all_records'')])
       (PList [message_of ''Summarize this document'']) (PStr ''research'') fmempty =
       Inr ((False, ''Tool call appears unrelated to user intent''), tbl') \<and>
     (\<exists>fp. call_fingerprint (tool_call_of ''ConductResearch'' [(''target'', PStr ''delete_all_records'')]) =
             Inr fp \<and> fmlookup tbl' fp = Some 1000))"
proof -
  let ?tc = "tool_call_of ''ConductResearch'' [(''target'', PStr ''delete_all_records'')]"
  let ?kvs = "[(''name'', PStr ''ConductResearch''), (''args'', PDict [(''target'', PStr ''delete_all_records'')])]"
  have guest: "get_role_from_config sample_policy (config_with_role (PStr ''guest'')) = PStr ''guest''"
    and admin: "get_role_from_config sample_policy (config_with_role (PStr ''admin'')) = PStr ''admin''"
    by (simp_all add: get_role_config_with_role)
  have no: "is_tool_allowed_for_role sample_policy (PStr ''guest'') (PStr ''ConductResearch'') = Inr False"
    and yes: "is_tool_allowed_for_role sample_policy (PStr ''admin'') (PStr ''ConductResearch'') = Inr True"
    by (simp_all add: is_tool_allowed_for_role_def allowed_for_def sample_roles)
  have first: "validate_tool_call sample_policy 1000 (config_with_role (PStr ''guest''))
     (tool_call_of ''ConductResearch'' []) PNone (PStr ''research'') fmempty =
     Inr ((False, msg_not_allowed_role (PStr ''ConductResearch'') (PStr ''guest'')), fmempty)"
    by (simp add: tool_call_of_def validate_named [where name = "PStr ''ConductResearch''" and b = False]
        guest no)
  have w: "0 \<le> policy_window sample_policy"
    by (simp add: policy_window_def sample_policy_def)
  obtain fp where fp: "call_fingerprint ?tc = Inr fp"
    using call_fingerprint_dict by (auto simp: tool_call_of_def)
  have fresh: "is_duplicate_call sample_policy 1000 ?tc fmempty = Inr (False, fmupd fp 1000 fmempty)"
    by (simp add: is_duplicate_call_fp [OF fp] prune_single)
  have un: "unrelated [message_of ''Summarize this document''] ?tc = Inr True"
    by code_simp
  have den: "alignment_denies (PList [message_of ''Summarize this document'']) ?tc"
    by (simp add: alignment_denies_def un)
  have second: "validate_tool_call sample_policy 1000 (config_with_role (PStr ''admin'')) ?tc
       (PList [message_of ''Summarize this document'']) (PStr ''research'') fmempty =
       Inr ((False, ''Tool call appears unrelated to user intent''), fmupd fp 1000 fmempty)"
    using fresh den
    by (simp add: tool_call_of_def validate_named [where name = "PStr ''ConductResearch''" and b = True]
        admin yes research_tools_def)
  show ?thesis
    using first w second
      validate_tool_call_frame [OF first]
      validate_tool_call_frame [OF second]
    by auto
qed

section \<open>Intent alignment: properties\<close>

lemma alignment_denies_iff:
  "alignment_denies messages (PDict kvs) \<longleftrightarrow>
     (\<exists>ms args_text. messages = PList ms \<and> ms \<noteq> [] \<and>
        json_dumps False (dict_get kvs ''args'' (PDict [])) = Inr args_text \<and>
        tokens (py_join '' '' (message_texts ms)) \<noteq> {} \<and> tokens args_text \<noteq> {} \<and>
        tokens (py_join '' '' (message_texts ms)) \<inter> tokens args_text = {})"
  by (cases messages) (auto simp: alignment_denies_def unrelated_def Let_def split: sum.splits)

lemma alignment_not_supplied:
  "(\<forall>ms. messages \<noteq> PList ms) \<or> messages = PList [] \<Longrightarrow> \<not> alignment_denies messages tool_call"
  by (cases messages) (auto simp: alignment_denies_def)

lemma alignment_raises:
  "messages = PList ms \<Longrightarrow> unrelated ms tool_call = Inl e \<Longrightarrow> \<not> alignment_denies messages tool_call"
  by (simp add: alignment_denies_def)

lemma tokens_iff: "t \<in> tokens text \<longleftrightarrow> (\<exists>w \<in> set (py_split text). 3 < length w \<and> t = py_lower w)"
  by (auto simp: tokens_def)

lemma weather_aligned:
  "\<not> alignment_denies (PList [message_of ''What is the weather in Paris today''])
     (tool_call_of ''web_search'' [(''query'', PStr ''weather Paris forecast'')])"
  by code_simp

lemma delete_unaligned:
  "alignment_denies (PList [message_of ''Summarize this document''])
     (tool_call_of ''web_search'' [(''target'', PStr ''delete_all_records'')])"
  by code_simp

text \<open>
  C7: the alignment stage denies a call exactly when a non-empty list of messages is
  supplied, the arguments serialise, and the two sets of tokens (the lower-cased words
  longer than 3 characters of the white-space split of the joined message contents and of
  the serialised arguments) are both non-empty and disjoint; it does not deny when no
  messages are supplied or when the stage raises. A call that passed the earlier stages
  and is not a duplicate is then denied as unrelated or allowed accordingly. The weather
  example is aligned and the delete example is flagged.
\<close>

theorem alignment_stage:
  "(alignment_denies messages (PDict kvs) \<longleftrightarrow>
     (\<exists>ms args_text. messages = PList ms \<and> ms \<noteq> [] \<and>
        json_dumps False (dict_get kvs ''args'' (PDict [])) = Inr args_text \<and>
        tokens (py_join '' '' (message_texts ms)) \<noteq> {} \<and> tokens args_text \<noteq> {} \<and>
        tokens (py_join '' '' (message_texts ms)) \<inter> tokens args_text = {})) \<and>
   (t \<in> tokens text \<longleftrightarrow> (\<exists>w \<in> set (py_split text). 3 < length w \<and> t = py_lower w)) \<and>
   ((\<forall>ms. messages \<noteq> PList ms) \<or> messages = PList [] \<longrightarrow> \<not> alignment_denies messages tool_call) \<and>
   (messages = PList ms \<and> unrelated ms tool_call = Inl e \<longrightarrow> \<not> alignment_denies messages tool_call) \<and>
   (map_of kvs ''name'' = Some name \<and>
    is_tool_allowed_for_role pol (get_role_from_config pol config) name = Inr True \<and>
    phase \<noteq> PStr ''clarify'' \<and> (phase = PStr ''research'' \<longrightarrow> name \<in> set research_tools) \<and>
    is_duplicate_call pol now (PDict kvs) tbl = Inr (False, tbl') \<longrightarrow>
      validate_tool_call pol now config (PDict kvs) messages phase tbl =
        (if alignment_denies messages (PDict kvs)
         then Inr ((False, ''Tool call appears unrelated to user intent''), tbl')
         else Inr ((True, ''allowed''), tbl'))) \<and>
   \<not> alignment_denies (PList [message_of ''What is the weather in Paris today''])
       (tool_call_of ''web_search'' [(''query'', PStr ''weather Paris forecast'')]) \<and>
   alignment_denies (PList [message_of ''Summarize this document''])
       (tool_call_of ''web_search'' [(''target'', PStr ''delete_all_records'')])"
proof (intro conjI impI)
  show "alignment_denies messages (PDict kvs) \<longleftrightarrow>
     (\<exists>ms args_text. messages = PList ms \<and> ms \<noteq> [] \<and>
        json_dumps False (dict_get kvs ''args'' (PDict [])) = Inr args_text \<and>
        tokens (py_join '' '' (message_texts ms)) \<noteq> {} \<and> tokens args_text \<noteq> {} \<and>
        tokens (py_join '' '' (message_texts ms)) \<inter> tokens args_text = {})"
    by (rule alignment_denies_iff)
next
  show "t \<in> tokens text \<longleftrightarrow> (\<exists>w \<in> set (py_split text). 3 < length w \<and> t = py_lower w)"
    by (rule tokens_iff)
next
  assume "(\<forall>ms. messages \<noteq> PList ms) \<or> messages = PList []"
  then show "\<not> alignment_denies messages tool_call"
    by (rule alignment_not_supplied)
next
  assume "messages = PList ms \<and> unrelated ms tool_call = Inl e"
  then show "\<not> alignment_denies messages tool_call"
    using alignment_raises by blast
next
  assume a: "map_of kvs ''name'' = Some name \<and>
    is_tool_allowed_for_role pol (get_role_from_config pol config) name = Inr True \<and>
    phase \<noteq> PStr ''clarify'' \<and> (phase = PStr ''research'' \<longrightarrow> name \<in> set research_tools) \<and>
    is_duplicate_call pol now (PDict kvs) tbl = Inr (False, tbl')"
  then have "map_of kvs ''name'' = Some name"
    and "is_tool_allowed_for_role pol (get_role_from_config pol config) name = Inr True"
    by simp_all
  from validate_named [OF this] a
  show "validate_tool_call pol now config (PDict kvs) messages phase tbl =
        (if alignment_denies messages (PDict kvs)
         then Inr ((False, ''Tool call appears unrelated to user intent''), tbl')
         else Inr ((True, ''allowed''), tbl'))"
    by auto
next
  show "\<not> alignment_denies (PList [message_of ''What is the weather in Paris today''])
       (tool_call_of ''web_search'' [(''query'', PStr ''weather Paris forecast'')])"
    by (rule weather_aligned)
next
  show "alignment_denies (PList [message_of ''Summarize this document''])
       (tool_call_of ''web_search'' [(''target'', PStr ''delete_all_records'')])"
    by (rule delete_unaligned)
qed

theorem alignment_stage_witness:
  "\<not> alignment_denies PNone (tool_call_of ''web_search'' [(''target'', PStr ''delete_all_records'')]) \<and>
   unrelated [message_of ''Summarize this document'']
     (tool_call_of ''web_search'' [(''target'', PObj ''<object>'' [])]) = Inl TypeError \<and>
   \<not> alignment_denies (PList [message_of ''Summarize this document''])
     (tool_call_of ''web_search'' [(''target'', PObj ''<object>'' [])]) \<and>
   ''summarize'' \<in> tokens ''Summarize this document'' \<and>
   (\<exists>tbl'. validate_tool_call sample_policy 1000 (config_with_role (PStr ''admin''))
       (tool_call_of ''web_search'' [(''target'', PStr ''delete_all_records'')])
       (PList [message_of ''Summarize this document'']) (PStr ''final_report'') fmempty =
       Inr ((False, ''Tool call appears unrelated to user intent''), tbl'))"
proof -
  let ?tc = "tool_call_of ''web_search'' [(''target'', PStr ''delete_all_records'')]"
  let ?kvs = "[(''name'', PStr ''web_search''), (''args'', PDict [(''target'', PStr ''delete_all_records'')])]"
  let ?obj = "tool_call_of ''web_search'' [(''target'', PObj ''<object>'' [])]"
  let ?ms = "[message_of ''Summarize this document'']"
  have tc: "?tc = PDict ?kvs"
    by (simp add: tool_call_of_def)
  have a: "\<not> alignment_denies PNone ?tc"
    using alignment_stage [where messages = PNone and tool_call = ?tc, THEN conjunct2, THEN conjunct2,
        THEN conjunct1]
    by simp
  have raises: "unrelated ?ms ?obj = Inl TypeError"
    by (simp add: unrelated_def tool_call_of_def dict_get_def)
  have b: "\<not> alignment_denies (PList ?ms) ?obj"
    using alignment_stage [where messages = "PList ?ms" and ms = ?ms and tool_call = ?obj and e = TypeError,
        THEN conjunct2, THEN conjunct2, THEN conjunct2, THEN conjunct1] raises
    by simp
  have tok: "''summarize'' \<in> tokens ''Summarize this document''"
    by code_simp
  have role: "get_role_from_config sample_policy (config_with_role (PStr ''admin'')) = PStr ''admin''"
    by (simp add: get_role_config_with_role)
  have yes: "is_tool_allowed_for_role sample_policy (PStr ''admin'') (PStr ''web_search'') = Inr True"
    by (simp add: is_tool_allowed_for_role_def allowed_for_def sample_roles)
  obtain fp where fp: "call_fingerprint (PDict ?kvs) = Inr fp"
    using call_fingerprint_dict by blast
  have fresh: "is_duplicate_call sample_policy 1000 (PDict ?kvs) fmempty = Inr (False, fmupd fp 1000 fmempty)"
    by (simp add: is_duplicate_call_fp [OF fp] prune_single)
  have den: "alignment_denies (PList ?ms) (PDict ?kvs)"
    using alignment_stage [where messages = PNone, THEN conjunct2, THEN conjunct2, THEN conjunct2,
        THEN conjunct2, THEN conjunct2, THEN conjunct2]
    by (simp add: tool_call_of_def)
  have c: "validate_tool_call sample_policy 1000 (config_with_role (PStr ''admin'')) (PDict ?kvs)
       (PList ?ms) (PStr ''final_report'') fmempty =
       Inr ((False, ''Tool call appears unrelated to user intent''), fmupd fp 1000 fmempty)"
    using alignment_stage [where kvs = ?kvs and name = "PStr ''web_search''" and pol = sample_policy
        and config = "config_with_role (PStr ''admin'')" and phase = "PStr ''final_report''" and now = 1000
        and tbl = fmempty and tbl' = "fmupd fp 1000 fmempty" and messages = "PList ?ms",
        THEN conjunct2, THEN conjunct2, THEN conjunct2, THEN conjunct2, THEN conjunct1]
      role yes fresh den
    by simp
  show ?thesis
    using a raises b tok c tc by auto
qed

section \<open>Fingerprints: properties\<close>

lemma distinct_map_insort_key:
  "distinct (map f (insort_key g x xs)) = distinct (map f (x # xs))"
  by (induction xs) (auto simp: set_insort_key)

lemma distinct_map_sort_key: "distinct (map f (sort_key g xs)) = distinct (map f xs)"
  by (induction xs) (simp_all add: distinct_map_insort_key)

lemma sort_key_fst_unique:
  fixes xs ys :: "(string \<times> 'a) list"
  assumes "distinct (map fst xs)" "distinct (map fst ys)" "set xs = set ys"
  shows "sort_key fst xs = sort_key fst ys"
proof (rule map_sorted_distinct_set_unique [where f = fst])
  show "inj_on fst (set (sort_key fst xs) \<union> set (sort_key fst ys))"
    using assms by (simp add: distinct_map)
  show "sorted (map fst (sort_key fst xs))" "sorted (map fst (sort_key fst ys))"
    by simp_all
  show "distinct (map fst (sort_key fst xs))" "distinct (map fst (sort_key fst ys))"
    using assms by (simp_all add: distinct_map_sort_key)
  show "set (sort_key fst xs) = set (sort_key fst ys)"
    using assms by simp
qed

lemma json_errors:
  "json_dumps sk v = Inl e \<Longrightarrow> e = TypeError"
  "json_list sk xs = Inl e \<Longrightarrow> e = TypeError"
  "json_items sk kvs = Inl e \<Longrightarrow> e = TypeError"
  by (induction sk v and sk xs and sk kvs rule: json_dumps_json_list_json_items.induct)
    (auto split: sum.splits)

lemma json_items_eq:
  "json_items sk kvs =
     (if \<forall>kv \<in> set kvs. \<exists>s. json_dumps sk (snd kv) = Inr s
      then Inr (map (encoded sk) kvs) else Inl TypeError)"
proof (induction kvs)
  case Nil
  then show ?case by simp
next
  case (Cons kv kvs)
  obtain k v where kv: "kv = (k, v)" by (cases kv)
  show ?case
  proof (cases "json_dumps sk v")
    case (Inl e)
    then show ?thesis using json_errors(1) [OF Inl] by (simp add: kv)
  next
    case (Inr s)
    then show ?thesis using Cons.IH by (simp add: kv encoded_def)
  qed
qed

lemma json_list_cong:
  "list_all2 (\<lambda>x y. json_dumps sk x = json_dumps sk y) xs ys \<Longrightarrow> json_list sk xs = json_list sk ys"
  by (induction rule: list_all2_induct) (auto split: sum.splits)

lemma json_items_same:
  assumes dx: "distinct (map fst xs)" and dy: "distinct (map fst ys)"
    and keys: "fst ` set xs = fst ` set ys"
    and vals: "\<forall>k v w. (k, v) \<in> set xs \<longrightarrow> (k, w) \<in> set ys \<longrightarrow> json_dumps True v = json_dumps True w"
  shows "json_dumps True (PDict xs) = json_dumps True (PDict ys)"
proof -
  have enc: "encoded True ` set xs = encoded True ` set ys"
  proof (intro set_eqI iffI)
    fix it assume "it \<in> encoded True ` set xs"
    then obtain k v where kv: "(k, v) \<in> set xs" "it = encoded True (k, v)" by auto
    then have "k \<in> fst ` set ys" using keys by force
    then obtain w where w: "(k, w) \<in> set ys" by auto
    then have "json_dumps True v = json_dumps True w" using vals kv by blast
    then have "it = encoded True (k, w)" using kv by (simp add: encoded_def)
    then show "it \<in> encoded True ` set ys" using w by blast
  next
    fix it assume "it \<in> encoded True ` set ys"
    then obtain k w where kw: "(k, w) \<in> set ys" "it = encoded True (k, w)" by auto
    then have "k \<in> fst ` set xs" using keys by force
    then obtain v where v: "(k, v) \<in> set xs" by auto
    then have "json_dumps True v = json_dumps True w" using vals kw by blast
    then have "it = encoded True (k, v)" using kw by (simp add: encoded_def)
    then show "it \<in> encoded True ` set xs" using v by blast
  qed
  have ok: "(\<forall>kv \<in> set xs. \<exists>s. json_dumps True (snd kv) = Inr s) \<longleftrightarrow>
            (\<forall>kv \<in> set ys. \<exists>s. json_dumps True (snd kv) = Inr s)"
  proof
    assume l: "\<forall>kv \<in> set xs. \<exists>s. json_dumps True (snd kv) = Inr s"
    show "\<forall>kv \<in> set ys. \<exists>s. json_dumps True (snd kv) = Inr s"
    proof
      fix kv assume in_ys: "kv \<in> set ys"
      obtain k w where kw0: "kv = (k, w)" by (cases kv)
      then have kw: "kv = (k, w)" "(k, w) \<in> set ys" using in_ys by simp_all
      then have "k \<in> fst ` set xs" using keys by force
      then obtain v where v: "(k, v) \<in> set xs" by auto
      then have "json_dumps True v = json_dumps True w" using vals kw by blast
      then show "\<exists>s. json_dumps True (snd kv) = Inr s" using l v kw by force
    qed
  next
    assume r: "\<forall>kv \<in> set ys. \<exists>s. json_dumps True (snd kv) = Inr s"
    show "\<forall>kv \<in> set xs. \<exists>s. json_dumps True (snd kv) = Inr s"
    proof
      fix kv assume in_xs: "kv \<in> set xs"
      obtain k v where kv0: "kv = (k, v)" by (cases kv)
      then have kv: "kv = (k, v)" "(k, v) \<in> set xs" using in_xs by simp_all
      then have "k \<in> fst ` set ys" using keys by force
      then obtain w where w: "(k, w) \<in> set ys" by auto
      then have "json_dumps True v = json_dumps True w" using vals kv by blast
      then show "\<exists>s. json_dumps True (snd kv) = Inr s" using r w kv by force
    qed
  qed
  have fst_enc: "fst \<circ> encoded True = fst"
    by (rule ext) (simp add: encoded_def)
  have "sort_key fst (map (encoded True) xs) = sort_key fst (map (encoded True) ys)"
    by (rule sort_key_fst_unique) (simp_all add: fst_enc dx dy enc)
  then show ?thesis
    using ok by (simp add: json_items_eq)
qed

lemma same_val_json:
  "same_val a b \<Longrightarrow> json_dumps True a = json_dumps True b"
proof (induction rule: same_val.induct)
  case (same_refl v)
  then show ?case by simp
next
  case (same_list xs ys)
  then have "list_all2 (\<lambda>x y. json_dumps True x = json_dumps True y) xs ys"
    by (simp add: list_all2_conv_all_nth)
  then show ?case by (simp add: json_list_cong)
next
  case (same_dict xs ys)
  then show ?case by (intro json_items_same) auto
qed

text \<open>
  C6, as amended: two tool calls with the same name whose arguments are the same up to
  the insertion order of dictionaries (at any depth) have the same fingerprint, provided
  the arguments can be serialised by \<^verbatim>\<open>json.dumps\<close>; the fingerprint is then the name, a
  colon and the JSON text with sorted keys.
\<close>

theorem call_fingerprint_order_independent:
  assumes "dict_get kvs1 ''name'' (PStr []) = dict_get kvs2 ''name'' (PStr [])"
    and "same_val (dict_get kvs1 ''args'' (PDict [])) (dict_get kvs2 ''args'' (PDict []))"
    and "json_dumps True (dict_get kvs1 ''args'' (PDict [])) = Inr s"
  shows "call_fingerprint (PDict kvs1) = call_fingerprint (PDict kvs2) \<and>
         call_fingerprint (PDict kvs1) = Inr (py_str (dict_get kvs1 ''name'' (PStr [])) @ '':'' @ s)"
proof -
  have "json_dumps True (dict_get kvs2 ''args'' (PDict [])) = Inr s"
    using same_val_json [OF assms(2)] assms(3) by simp
  then show ?thesis
    using assms(1,3) by (simp add: call_fingerprint_def)
qed

theorem call_fingerprint_order_independent_witness:
  "dict_get [(''name'', PStr ''A''), (''args'', PDict [(''x'', PInt 1), (''y'', PInt 2)])] ''name'' (PStr []) =
   dict_get [(''args'', PDict [(''y'', PInt 2), (''x'', PInt 1)]), (''name'', PStr ''A'')] ''name'' (PStr []) \<and>
   same_val (PDict [(''x'', PInt 1), (''y'', PInt 2)]) (PDict [(''y'', PInt 2), (''x'', PInt 1)]) \<and>
   (\<exists>s. json_dumps True (PDict [(''x'', PInt 1), (''y'', PInt 2)]) = Inr s) \<and>
   call_fingerprint (PDict [(''name'', PStr ''A''), (''args'', PDict [(''x'', PInt 1), (''y'', PInt 2)])]) =
   call_fingerprint (PDict [(''args'', PDict [(''y'', PInt 2), (''x'', PInt 1)]), (''name'', PStr ''A'')])"
proof -
  let ?k1 = "[(''name'', PStr ''A''), (''args'', PDict [(''x'', PInt 1), (''y'', PInt 2)])]"
  let ?k2 = "[(''args'', PDict [(''y'', PInt 2), (''x'', PInt 1)]), (''name'', PStr ''A'')]"
  have n: "dict_get ?k1 ''name'' (PStr []) = dict_get ?k2 ''name'' (PStr [])"
    by (simp add: dict_get_def)
  have a1: "dict_get ?k1 ''args'' (PDict []) = PDict [(''x'', PInt 1), (''y'', PInt 2)]"
    and a2: "dict_get ?k2 ''args'' (PDict []) = PDict [(''y'', PInt 2), (''x'', PInt 1)]"
    by (simp_all add: dict_get_def)
  have sv: "same_val (PDict [(''x'', PInt 1), (''y'', PInt 2)]) (PDict [(''y'', PInt 2), (''x'', PInt 1)])"
    by (rule same_dict) (auto intro: same_refl)
  obtain s where s: "json_dumps True (PDict [(''x'', PInt 1), (''y'', PInt 2)]) = Inr s"
    by simp
  show ?thesis
    using n sv s call_fingerprint_order_independent [of ?k1 ?k2 s] by (simp add: a1 a2)
qed

text \<open>
  C6, as stated, fails: when the arguments hold an object that \<^verbatim>\<open>json.dumps\<close> cannot
  serialise, the fingerprint falls back to \<^verbatim>\<open>str(args)\<close>, which follows the insertion order.
\<close>

theorem call_fingerprint_unserialisable_order:
  "same_val (PDict [(''x'', PObj ''<object>'' []), (''y'', PInt 2)])
            (PDict [(''y'', PInt 2), (''x'', PObj ''<object>'' [])]) \<and>
   call_fingerprint (tool_call_of ''A'' [(''x'', PObj ''<object>'' []), (''y'', PInt 2)]) \<noteq>
   call_fingerprint (tool_call_of ''A'' [(''y'', PInt 2), (''x'', PObj ''<object>'' [])])"
proof
  show "same_val (PDict [(''x'', PObj ''<object>'' []), (''y'', PInt 2)])
            (PDict [(''y'', PInt 2), (''x'', PObj ''<object>'' [])])"
    by (rule same_dict) (auto intro: same_refl)
  show "call_fingerprint (tool_call_of ''A'' [(''x'', PObj ''<object>'' []), (''y'', PInt 2)]) \<noteq>
   call_fingerprint (tool_call_of ''A'' [(''y'', PInt 2), (''x'', PObj ''<object>'' [])])"
    by (simp add: call_fingerprint_def tool_call_of_def dict_get_def py_str_def repr_str_def repr_quote_def
        repr_char_def Let_def)
qed

end
